theory Spec2Isabelle
  imports Main "HOL-Library.Word" "HOL-Library.Multiset"
begin

section \<open>The ASCII renderer of src/extension.ts\<close>

subsection \<open>Strings, absent fields and exceptions\<close>

text \<open>
  A string of the source language is a sequence of UTF-16 code units: \<open>length\<close> counts
  code units, \<open>split('')\<close> cuts between code units, and the overline glyph U+203E of the
  token table is one unit. A property that a parsed JSON object does not have reads as
  \<open>undefined\<close>; it is \<open>None\<close> here. Reading \<open>.length\<close> or calling \<open>.split\<close> on
  \<open>undefined\<close> throws a TypeError, \<open>repeat\<close> with a negative count a RangeError.
  The engine's limit on the length of a string (a resource limit) is not modelled.
\<close>

type_synonym jsstring = "16 word list"

datatype error = TypeError | RangeError

text \<open>\<open>String.prototype.repeat\<close> at an integral count.\<close>

definition repeat :: "jsstring \<Rightarrow> int \<Rightarrow> error + jsstring" where
  "repeat s cnt =
     (if cnt < 0 then Inl RangeError else Inr (concat (replicate (nat cnt) s)))"

subsection \<open>padEnd\<close>

text \<open>
  \<^verbatim>\<open>
  function padEnd(str: string, targetLength: number, padChar: string = ' '): string {
    if (str.length >= targetLength) {
        return str;
    }
    return str + padChar.repeat(targetLength - str.length);
  }
  \<close>
  The target length is an integer (the one call of the source passes 10). The third
  argument is optional: left out (\<open>None\<close>), it is one space, U+0020. The first argument
  is declared a string, but the renderer passes a field of a parsed JSON object, which
  may be absent.
\<close>

definition padEnd :: "jsstring option \<Rightarrow> int \<Rightarrow> jsstring option \<Rightarrow> error + jsstring" where
  "padEnd str targetLength padCharArg =
     (let padChar = (case padCharArg of None \<Rightarrow> [0x20] | Some p \<Rightarrow> p) in
      case str of
        None \<Rightarrow> Inl TypeError
      | Some s \<Rightarrow>
          if int (length s) \<ge> targetLength then Inr s
          else (case repeat padChar (targetLength - int (length s)) of
                  Inl e \<Rightarrow> Inl e
                | Inr pad \<Rightarrow> Inr (s @ pad)))"

subsection \<open>generateAsciiArt\<close>

text \<open>
  One row of the diagram, as the JSON decoder hands it over. The declared parameter type
  has \<open>name\<close> and \<open>wave\<close> only; the caller passes \<open>parsedContent.signal\<close> unchecked, so
  either may be absent and a \<open>data\<close> array of labels may be there too.
\<close>

record signal =
  name :: "jsstring option"
  wave :: "jsstring option"
  data :: "jsstring list option"

text \<open>
  \<^verbatim>\<open>
  const waveMapping: { [key: string]: string } = {
      "P": "|~~~~|", "0": "____", "1": "~~~~", ".": "    ", "x": "xxxx", "=": "====",
  };
  \<close>
  (with U+203E, the overline, where this comment has a tilde). The keys are strings of
  one code unit; no inherited property of an object has a name that short.
\<close>

definition waveMapping :: "jsstring \<rightharpoonup> jsstring" where
  "waveMapping = map_of
     [([0x50], [0x7C, 0x203E, 0x203E, 0x203E, 0x203E, 0x7C]),
      ([0x30], [0x5F, 0x5F, 0x5F, 0x5F]),
      ([0x31], [0x203E, 0x203E, 0x203E, 0x203E]),
      ([0x2E], [0x20, 0x20, 0x20, 0x20]),
      ([0x78], [0x78, 0x78, 0x78, 0x78]),
      ([0x3D], [0x3D, 0x3D, 0x3D, 0x3D])]"

text \<open>\<open>s.split('')\<close>: the code units of \<open>s\<close>, each as a string of its own.\<close>

definition split_units :: "jsstring \<Rightarrow> jsstring list" where
  "split_units s = map (\<lambda>u. [u]) s"

text \<open>
  \<open>waveMapping[char] || '????'\<close>: the right operand is taken when the left one is
  \<open>undefined\<close> or the empty string.
\<close>

definition glyph :: "jsstring \<Rightarrow> jsstring" where
  "glyph char =
     (case waveMapping char of
        None \<Rightarrow> [0x3F, 0x3F, 0x3F, 0x3F]
      | Some g \<Rightarrow> if g = [] then [0x3F, 0x3F, 0x3F, 0x3F] else g)"

text \<open>
  \<^verbatim>\<open>
  let asciiArt = '';
  for (const signal of signals) {
      asciiArt += `${padEnd(signal.name,10)}: `;
      const wave = signal.wave.split('').map(char => waveMapping[char] || '????').join('');
      asciiArt += `${wave}\n`;
  }
  return asciiArt;
  \<close>
  The loop is \<open>forOf\<close>, with \<open>asciiArt\<close> as its accumulator; an exception leaves the
  loop and the function at once.
\<close>

fun forOf :: "jsstring \<Rightarrow> signal list \<Rightarrow> error + jsstring" where
  "forOf asciiArt [] = Inr asciiArt"
| "forOf asciiArt (signal # signals) =
     (case padEnd (name signal) 10 None of
        Inl e \<Rightarrow> Inl e
      | Inr label \<Rightarrow>
          (case wave signal of
             None \<Rightarrow> Inl TypeError
           | Some w \<Rightarrow>
               forOf ((asciiArt @ label @ [0x3A, 0x20])
                        @ concat (map glyph (split_units w)) @ [0x0A]) signals))"

definition generateAsciiArt :: "signal list \<Rightarrow> error + jsstring" where
  "generateAsciiArt signals = forOf [] signals"

section \<open>Properties\<close>

subsection \<open>The padding helper\<close>

lemma padEnd_long: "n \<le> int (length s) \<Longrightarrow> padEnd (Some s) n c = Inr s"
  by (simp add: padEnd_def Let_def)

lemma padEnd_short:
  "int (length s) < n \<Longrightarrow>
   padEnd (Some s) n (Some p) = Inr (s @ concat (replicate (nat (n - int (length s))) p))"
  by (simp add: padEnd_def repeat_def)

lemma padEnd_default: "padEnd str n None = padEnd str n (Some [0x20])"
  by (simp add: padEnd_def)

lemma concat_replicate_single: "concat (replicate k [c]) = replicate k c"
  by (induction k) simp_all

subsection \<open>The token table and the loop\<close>

lemma glyph_unit:
  "glyph [u] =
     (if u = 0x50 then [0x7C, 0x203E, 0x203E, 0x203E, 0x203E, 0x7C]
      else if u = 0x30 then [0x5F, 0x5F, 0x5F, 0x5F]
      else if u = 0x31 then [0x203E, 0x203E, 0x203E, 0x203E]
      else if u = 0x2E then [0x20, 0x20, 0x20, 0x20]
      else if u = 0x78 then [0x78, 0x78, 0x78, 0x78]
      else if u = 0x3D then [0x3D, 0x3D, 0x3D, 0x3D]
      else [0x3F, 0x3F, 0x3F, 0x3F])"
  by (simp add: glyph_def waveMapping_def)

lemma map_glyph_split:
  "map glyph (split_units w) = map (\<lambda>u. glyph [u]) w"
  by (simp add: split_units_def comp_def)

lemma forOf_acc:
  "forOf acc sigs = (case forOf [] sigs of Inl e \<Rightarrow> Inl e | Inr out \<Rightarrow> Inr (acc @ out))"
proof (induction sigs arbitrary: acc)
  case Nil
  show ?case by simp
next
  case (Cons s sigs)
  show ?case
  proof (cases "padEnd (name s) 10 None")
    case (Inl e)
    then show ?thesis by simp
  next
    case (Inr label)
    show ?thesis
    proof (cases "wave s")
      case None
      with Inr show ?thesis by simp
    next
      case (Some w)
      let ?l = "label @ [0x3A, 0x20] @ concat (map glyph (split_units w)) @ [0x0A]"
      have "forOf acc (s # sigs) = forOf (acc @ ?l) sigs"
        using Inr Some by simp
      also have "\<dots> = (case forOf [] sigs of Inl e \<Rightarrow> Inl e | Inr out \<Rightarrow> Inr ((acc @ ?l) @ out))"
        by (rule Cons.IH)
      finally have lhs: "forOf acc (s # sigs) =
          (case forOf [] sigs of Inl e \<Rightarrow> Inl e | Inr out \<Rightarrow> Inr (acc @ ?l @ out))"
        by (simp split: sum.splits)
      have "forOf [] (s # sigs) = forOf ?l sigs"
        using Inr Some by simp
      also have "\<dots> = (case forOf [] sigs of Inl e \<Rightarrow> Inl e | Inr out \<Rightarrow> Inr (?l @ out))"
        by (rule Cons.IH)
      finally show ?thesis
        using lhs by (simp split: sum.splits)
    qed
  qed
qed

lemma padEnd_name:
  "padEnd (Some n) 10 None =
     Inr (if length n < 10 then n @ replicate (10 - length n) 0x20 else n)"
  by (simp add: padEnd_def repeat_def concat_replicate_single nat_diff_distrib')

lemma render_single:
  "generateAsciiArt [\<lparr>name = Some n, wave = Some w, data = d\<rparr>] =
     Inr ((if length n < 10 then n @ replicate (10 - length n) 0x20 else n)
          @ [0x3A, 0x20] @ concat (map (\<lambda>u. glyph [u]) w) @ [0x0A])"
  by (simp add: generateAsciiArt_def padEnd_name map_glyph_split)

lemma render_Cons:
  "generateAsciiArt (s # sigs) =
     (case generateAsciiArt [s] of
        Inl e \<Rightarrow> Inl e
      | Inr l \<Rightarrow> (case generateAsciiArt sigs of Inl e \<Rightarrow> Inl e | Inr out \<Rightarrow> Inr (l @ out)))"
proof (cases "generateAsciiArt [s]")
  case (Inl e)
  then show ?thesis
    by (simp add: generateAsciiArt_def split: sum.splits option.splits)
next
  case (Inr l)
  then obtain label w where p: "padEnd (name s) 10 None = Inr label" and w: "wave s = Some w"
    and l: "l = label @ [0x3A, 0x20] @ concat (map glyph (split_units w)) @ [0x0A]"
    by (auto simp: generateAsciiArt_def split: sum.splits option.splits)
  have "generateAsciiArt (s # sigs) = forOf l sigs"
    using p w l by (simp add: generateAsciiArt_def)
  also have "\<dots> = (case generateAsciiArt sigs of Inl e \<Rightarrow> Inl e | Inr out \<Rightarrow> Inr (l @ out))"
    unfolding generateAsciiArt_def by (rule forOf_acc)
  finally show ?thesis using Inr by simp
qed

text \<open>Unfolds the padding of a concrete label one fill unit at a time.\<close>

lemma pad_units: "replicate (numeral k) (c :: 16 word) = c # replicate (numeral k - 1) c"
  by (simp add: numeral_eq_Suc)

lemma render_absent:
  "name s = None \<or> wave s = None \<Longrightarrow> generateAsciiArt (s # sigs) = Inl TypeError"
proof (cases "name s")
  case None
  then show ?thesis by (simp add: generateAsciiArt_def padEnd_def)
next
  case (Some n)
  moreover assume "name s = None \<or> wave s = None"
  ultimately have "wave s = None" by simp
  with Some show ?thesis by (simp add: generateAsciiArt_def padEnd_name)
qed

lemma render_present:
  "name s = Some n \<Longrightarrow> wave s = Some w \<Longrightarrow>
   generateAsciiArt [s] =
     Inr ((if length n < 10 then n @ replicate (10 - length n) 0x20 else n)
          @ [0x3A, 0x20] @ concat (map (\<lambda>u. glyph [u]) w) @ [0x0A])"
  by (simp add: generateAsciiArt_def padEnd_name map_glyph_split)

lemma render_single_Inr_iff:
  "(\<exists>l. generateAsciiArt [s] = Inr l) \<longleftrightarrow> name s \<noteq> None \<and> wave s \<noteq> None"
proof
  assume "\<exists>l. generateAsciiArt [s] = Inr l"
  then obtain l where l: "generateAsciiArt [s] = Inr l" ..
  show "name s \<noteq> None \<and> wave s \<noteq> None"
  proof (rule ccontr)
    assume "\<not> (name s \<noteq> None \<and> wave s \<noteq> None)"
    then have "generateAsciiArt [s] = Inl TypeError"
      by (intro render_absent) simp
    with l show False by simp
  qed
next
  assume "name s \<noteq> None \<and> wave s \<noteq> None"
  then obtain n w where "name s = Some n" "wave s = Some w" by auto
  then show "\<exists>l. generateAsciiArt [s] = Inr l"
    by (simp add: render_present)
qed

lemma render_concat:
  "\<forall>s\<in>set sigs. generateAsciiArt [s] = Inr (f s) \<Longrightarrow>
   generateAsciiArt sigs = Inr (concat (map f sigs))"
proof (induction sigs)
  case Nil
  show ?case by (simp add: generateAsciiArt_def)
next
  case (Cons s sigs)
  then have "generateAsciiArt [s] = Inr (f s)"
    and "generateAsciiArt sigs = Inr (concat (map f sigs))"
    by simp_all
  then show ?case
    by (simp add: render_Cons [of s sigs])
qed

lemma render_error:
  "s \<in> set sigs \<Longrightarrow> name s = None \<or> wave s = None \<Longrightarrow> generateAsciiArt sigs = Inl TypeError"
proof (induction sigs)
  case Nil
  then show ?case by simp
next
  case (Cons a sigs)
  show ?case
  proof (cases "name a = None \<or> wave a = None")
    case True
    then show ?thesis by (rule render_absent)
  next
    case False
    with Cons.prems have "s \<in> set sigs" by auto
    then have "generateAsciiArt sigs = Inl TypeError"
      using Cons.IH Cons.prems(2) by simp
    moreover obtain l where "generateAsciiArt [a] = Inr l"
      using False render_single_Inr_iff [of a] by auto
    ultimately show ?thesis
      by (simp add: render_Cons [of a sigs])
  qed
qed

lemma render_cases:
  "generateAsciiArt sigs =
     (if \<forall>s\<in>set sigs. name s \<noteq> None \<and> wave s \<noteq> None
      then Inr (concat (map (\<lambda>s. projr (generateAsciiArt [s])) sigs))
      else Inl TypeError)"
proof (cases "\<forall>s\<in>set sigs. name s \<noteq> None \<and> wave s \<noteq> None")
  case True
  have "generateAsciiArt [s] = Inr (projr (generateAsciiArt [s]))" if "s \<in> set sigs" for s
  proof -
    from that True have "\<exists>l. generateAsciiArt [s] = Inr l"
      by (simp add: render_single_Inr_iff)
    then show ?thesis by auto
  qed
  then have "\<forall>s\<in>set sigs. generateAsciiArt [s] = Inr (projr (generateAsciiArt [s]))"
    by simp
  then show ?thesis
    using True render_concat [of sigs "\<lambda>s. projr (generateAsciiArt [s])"] by simp
next
  case False
  then obtain s where "s \<in> set sigs" "name s = None \<or> wave s = None" by auto
  then show ?thesis
    using False render_error by simp
qed

lemma length_glyph_recognized:
  "u \<in> {0x50, 0x30, 0x31, 0x2E, 0x78, 0x3D} \<Longrightarrow>
   length (glyph [u]) = (if u = 0x50 then 6 else 4)"
  by (auto simp: glyph_unit)

lemma length_concat_sum: "length (concat xss) = sum_list (map length xss)"
  by (induction xss) simp_all

text \<open>
  On a list whose signals all have both fields, the output is one line per signal, in
  order, each the label, ": ", the glyph runs of the wave, and a newline.
\<close>

lemma render_lines:
  assumes "\<forall>s\<in>set sigs. name s \<noteq> None \<and> wave s \<noteq> None"
  shows "\<exists>lines. length lines = length sigs \<and>
           generateAsciiArt sigs = Inr (concat lines) \<and>
           (\<forall>i<length sigs. \<forall>n w.
              name (sigs ! i) = Some n \<longrightarrow> wave (sigs ! i) = Some w \<longrightarrow>
              lines ! i =
                (if length n < 10 then n @ replicate (10 - length n) 0x20 else n)
                @ [0x3A, 0x20] @ concat (map (\<lambda>u. glyph [u]) w) @ [0x0A])"
proof -
  let ?lines = "map (\<lambda>s. projr (generateAsciiArt [s])) sigs"
  have out: "generateAsciiArt sigs = Inr (concat ?lines)"
    using assms by (simp add: render_cases [of sigs])
  have each: "?lines ! i =
      (if length n < 10 then n @ replicate (10 - length n) 0x20 else n)
      @ [0x3A, 0x20] @ concat (map (\<lambda>u. glyph [u]) w) @ [0x0A]"
    if "i < length sigs" "name (sigs ! i) = Some n" "wave (sigs ! i) = Some w" for i n w
    using that by (simp add: render_present)
  show ?thesis
  proof (intro exI [of _ ?lines] conjI allI impI)
    show "length ?lines = length sigs" by simp
    show "generateAsciiArt sigs = Inr (concat ?lines)" by (rule out)
  qed (rule each)
qed

lemma concat_two: "length xs = 2 \<Longrightarrow> concat xs = xs ! 0 @ xs ! 1"
  by (auto simp: numeral_2_eq_2 length_Suc_conv)

lemma glyph_or_placeholder:
  "(\<lambda>u. if u \<in> {0x50, 0x30, 0x31, 0x2E, 0x78, 0x3D} then glyph [u]
        else [0x3F, 0x3F, 0x3F, 0x3F]) = (\<lambda>u. glyph [u])"
  by (rule ext) (simp add: glyph_unit)

subsection \<open>Claims about padEnd\<close>

text \<open>
  C8. The padding helper is left-aligned and does nothing to an input that is long enough:
  for every string \<open>s\<close>, target width \<open>n\<close> and fill character \<open>c\<close>, if the length of
  \<open>s\<close> is at least \<open>n\<close> then \<open>padEnd(s, n, c)\<close> is \<open>s\<close>, and otherwise the result
  is \<open>s\<close> followed by copies of \<open>c\<close> only (\<open>n - length s\<close> of them).
\<close>

theorem padEnd_left_aligned:
  "(n \<le> int (length s) \<longrightarrow> padEnd (Some s) n (Some [c]) = Inr s) \<and>
   (int (length s) < n \<longrightarrow>
      padEnd (Some s) n (Some [c]) = Inr (s @ replicate (nat (n - int (length s))) c))"
  by (simp add: padEnd_long padEnd_short concat_replicate_single)

text \<open>C8 at "clk" with fill "-": widths 2 and 3 leave it alone, width 5 adds two.\<close>

theorem padEnd_left_aligned_witness:
  "padEnd (Some [0x63, 0x6C, 0x6B]) 2 (Some [0x2D]) = Inr [0x63, 0x6C, 0x6B] \<and>
   padEnd (Some [0x63, 0x6C, 0x6B]) 3 (Some [0x2D]) = Inr [0x63, 0x6C, 0x6B] \<and>
   padEnd (Some [0x63, 0x6C, 0x6B]) 5 (Some [0x2D]) = Inr [0x63, 0x6C, 0x6B, 0x2D, 0x2D]"
  using padEnd_left_aligned [of 2 "[0x63, 0x6C, 0x6B]" "0x2D"]
        padEnd_left_aligned [of 3 "[0x63, 0x6C, 0x6B]" "0x2D"]
        padEnd_left_aligned [of 5 "[0x63, 0x6C, 0x6B]" "0x2D"]
  by (simp add: numeral_eq_Suc)

lemma length_concat_replicate: "length (concat (replicate k p)) = k * length p"
  by (induction k) simp_all

text \<open>
  C10. For every string \<open>s\<close> shorter than \<open>n\<close> and every fill string \<open>c\<close>,
  \<open>padEnd(s, n, c)\<close> has length \<open>length s + length c * (n - length s)\<close>; the result has
  length exactly \<open>n\<close> only when \<open>c\<close> is a single character, and a fill of several
  characters overshoots the target width.
\<close>

theorem padEnd_length:
  "int (length s) < n \<Longrightarrow>
   \<exists>r. padEnd (Some s) n (Some c) = Inr r \<and>
       int (length r) = int (length s) + int (length c) * (n - int (length s)) \<and>
       (int (length r) = n \<longleftrightarrow> length c = 1) \<and>
       (1 < length c \<longrightarrow> n < int (length r))"
proof -
  assume short: "int (length s) < n"
  define k where "k = nat (n - int (length s))"
  have k: "int k = n - int (length s)" "0 < k"
    using short by (simp_all add: k_def)
  let ?r = "s @ concat (replicate k c)"
  have r: "padEnd (Some s) n (Some c) = Inr ?r"
    using short by (simp add: padEnd_short k_def)
  have len: "int (length ?r) = int (length s) + int (length c) * (n - int (length s))"
    by (simp add: length_concat_replicate k(1) [symmetric])
  have n: "n = int (length s) + int k"
    using k(1) by simp
  have lr: "length ?r = length s + k * length c"
    by (simp add: length_concat_replicate)
  have exact: "int (length ?r) = n \<longleftrightarrow> length c = 1"
    using \<open>0 < k\<close> unfolding n lr by (auto simp flip: of_nat_add of_nat_mult)
  have over: "1 < length c \<longrightarrow> n < int (length ?r)"
  proof
    assume "1 < length c"
    then have "k * 1 < k * length c"
      using \<open>0 < k\<close> by simp
    then show "n < int (length ?r)"
      unfolding n lr by simp
  qed
  show ?thesis
    using r len exact over by blast
qed

text \<open>C10 at "a", width 3: the fill "-+" gives five units, the fill "-" gives three.\<close>

theorem padEnd_length_witness:
  "padEnd (Some [0x61]) 3 (Some [0x2D, 0x2B]) = Inr [0x61, 0x2D, 0x2B, 0x2D, 0x2B] \<and>
   padEnd (Some [0x61]) 3 (Some [0x2D]) = Inr [0x61, 0x2D, 0x2D]"
  using padEnd_length [of "[0x61]" 3 "[0x2D, 0x2B]"] padEnd_length [of "[0x61]" 3 "[0x2D]"]
  by (simp add: padEnd_def repeat_def numeral_eq_Suc)

subsection \<open>Claims about generateAsciiArt\<close>

text \<open>C9. Rendering the empty signal list produces the empty string (zero lines).\<close>

theorem render_empty: "generateAsciiArt [] = Inr []"
  by (simp add: generateAsciiArt_def)

text \<open>
  C1, as the code has it. On a list in which every signal has a string \<open>name\<close> and a
  string \<open>wave\<close> the renderer returns normally, one line per signal in input order, and
  in the wave field of a line every code unit outside the token table stands as the
  placeholder "????": an unknown token never aborts the render. On a list with a signal
  that lacks \<open>name\<close> or \<open>wave\<close> the renderer raises a TypeError; an absent field is not
  read as the empty string.
\<close>

theorem render_raises_iff_absent:
  "if \<forall>s\<in>set sigs. name s \<noteq> None \<and> wave s \<noteq> None
   then \<exists>lines. length lines = length sigs \<and>
          generateAsciiArt sigs = Inr (concat lines) \<and>
          (\<forall>i<length sigs. \<forall>n w.
             name (sigs ! i) = Some n \<longrightarrow> wave (sigs ! i) = Some w \<longrightarrow>
             lines ! i =
               (if length n < 10 then n @ replicate (10 - length n) 0x20 else n)
               @ [0x3A, 0x20]
               @ concat (map (\<lambda>u. if u \<in> {0x50, 0x30, 0x31, 0x2E, 0x78, 0x3D} then glyph [u]
                                   else [0x3F, 0x3F, 0x3F, 0x3F]) w)
               @ [0x0A])
   else generateAsciiArt sigs = Inl TypeError"
proof (cases "\<forall>s\<in>set sigs. name s \<noteq> None \<and> wave s \<noteq> None")
  case True
  from render_lines [OF True] show ?thesis
    by (simp only: if_P [OF True] glyph_or_placeholder)
next
  case False
  then have "generateAsciiArt sigs = Inl TypeError"
    by (simp add: render_cases [of sigs])
  then show ?thesis
    by (simp only: if_not_P [OF False])
qed

text \<open>
  Both branches: the list of "a" with wave "0z" (an unknown token) and a row of two empty
  strings renders, with "????" for the "z"; a list whose second row is the empty object
  raises.
\<close>

theorem render_raises_iff_absent_witness:
  "generateAsciiArt
     [\<lparr>name = Some [0x61], wave = Some [0x30, 0x7A], data = None\<rparr>,
      \<lparr>name = Some [], wave = Some [], data = None\<rparr>] =
     Inr ([0x61, 0x20, 0x20, 0x20, 0x20, 0x20, 0x20, 0x20, 0x20, 0x20, 0x3A, 0x20,
           0x5F, 0x5F, 0x5F, 0x5F, 0x3F, 0x3F, 0x3F, 0x3F, 0x0A] @
          [0x20, 0x20, 0x20, 0x20, 0x20, 0x20, 0x20, 0x20, 0x20, 0x20, 0x3A, 0x20, 0x0A]) \<and>
   generateAsciiArt
     [\<lparr>name = Some [0x61], wave = Some [0x30], data = None\<rparr>,
      \<lparr>name = None, wave = None, data = None\<rparr>] = Inl TypeError"
proof -
  let ?S = "[\<lparr>name = Some [0x61], wave = Some [0x30, 0x7A], data = None\<rparr>,
             \<lparr>name = Some [], wave = Some [], data = None\<rparr>]"
  let ?B = "[\<lparr>name = Some [0x61], wave = Some [0x30], data = None\<rparr>,
             \<lparr>name = None, wave = None, data = None\<rparr>]"
  have "\<exists>lines. length lines = length ?S \<and>
          generateAsciiArt ?S = Inr (concat lines) \<and>
          (\<forall>i<length ?S. \<forall>n w.
             name (?S ! i) = Some n \<longrightarrow> wave (?S ! i) = Some w \<longrightarrow>
             lines ! i =
               (if length n < 10 then n @ replicate (10 - length n) 0x20 else n)
               @ [0x3A, 0x20]
               @ concat (map (\<lambda>u. if u \<in> {0x50, 0x30, 0x31, 0x2E, 0x78, 0x3D} then glyph [u]
                                   else [0x3F, 0x3F, 0x3F, 0x3F]) w)
               @ [0x0A])"
    using render_raises_iff_absent [of ?S] by simp
  then obtain lines where len: "length lines = length ?S"
    and out: "generateAsciiArt ?S = Inr (concat lines)"
    and each: "\<forall>i<length ?S. \<forall>n w.
             name (?S ! i) = Some n \<longrightarrow> wave (?S ! i) = Some w \<longrightarrow>
             lines ! i =
               (if length n < 10 then n @ replicate (10 - length n) 0x20 else n)
               @ [0x3A, 0x20]
               @ concat (map (\<lambda>u. if u \<in> {0x50, 0x30, 0x31, 0x2E, 0x78, 0x3D} then glyph [u]
                                   else [0x3F, 0x3F, 0x3F, 0x3F]) w)
               @ [0x0A]"
    by blast
  have l0: "lines ! 0 = [0x61, 0x20, 0x20, 0x20, 0x20, 0x20, 0x20, 0x20, 0x20, 0x20, 0x3A, 0x20,
                         0x5F, 0x5F, 0x5F, 0x5F, 0x3F, 0x3F, 0x3F, 0x3F, 0x0A]"
    using each [rule_format, of 0 "[0x61]" "[0x30, 0x7A]"] by (simp add: glyph_unit pad_units)
  have l1: "lines ! 1 = [0x20, 0x20, 0x20, 0x20, 0x20, 0x20, 0x20, 0x20, 0x20, 0x20, 0x3A, 0x20, 0x0A]"
    using each [rule_format, of 1 "[]" "[]"] by (simp add: pad_units)
  have "concat lines = lines ! 0 @ lines ! 1"
    using len by (intro concat_two) simp
  with out have A: "generateAsciiArt ?S = Inr (lines ! 0 @ lines ! 1)"
    by simp
  have B: "generateAsciiArt ?B = Inl TypeError"
    using render_raises_iff_absent [of ?B] by simp
  from A B show ?thesis
    unfolding l0 l1 by (intro conjI)
qed

text \<open>
  C1 as stated fails: a row without \<open>name\<close>, and a row without \<open>wave\<close>, each make the
  renderer raise.
\<close>

theorem render_absent_field_counterexample:
  "generateAsciiArt [\<lparr>name = None, wave = Some [0x31], data = None\<rparr>] = Inl TypeError \<and>
   generateAsciiArt [\<lparr>name = Some [0x61], wave = None, data = None\<rparr>] = Inl TypeError"
  by (simp add: render_absent)

text \<open>
  C4 as stated fails: for the row with neither \<open>name\<close> nor \<open>wave\<close> the result is not the
  line of ten spaces, ": " and a newline.
\<close>

theorem render_spacer_counterexample:
  "generateAsciiArt [\<lparr>name = None, wave = None, data = None\<rparr>] \<noteq>
   Inr [0x20, 0x20, 0x20, 0x20, 0x20, 0x20, 0x20, 0x20, 0x20, 0x20, 0x3A, 0x20, 0x0A]"
  by (simp add: generateAsciiArt_def padEnd_def)

text \<open>
  C4, as the code has it. A signal whose \<open>name\<close> and \<open>wave\<close> are both the empty string
  renders as exactly ten spaces, then ": ", then one newline, and nothing else; a signal
  with both fields missing makes the renderer raise a TypeError.
\<close>

theorem render_spacer:
  "generateAsciiArt [\<lparr>name = Some [], wave = Some [], data = d\<rparr>] =
     Inr [0x20, 0x20, 0x20, 0x20, 0x20, 0x20, 0x20, 0x20, 0x20, 0x20, 0x3A, 0x20, 0x0A] \<and>
   generateAsciiArt [\<lparr>name = None, wave = None, data = d\<rparr>] = Inl TypeError"
  by (simp add: render_single render_absent pad_units)

text \<open>
  C2 as stated fails: the signal with wave "P0" and no \<open>name\<close> has a string \<open>wave\<close>, but
  the renderer raises on it and there is no output line to hold a wave field.
\<close>

theorem wave_field_glyphs_counterexample:
  "generateAsciiArt [\<lparr>name = None, wave = Some [0x50, 0x30], data = None\<rparr>] = Inl TypeError"
  by (simp add: render_absent)

text \<open>
  C2, as the code has it. On every signal list in which each signal has a string \<open>name\<close>
  and a string \<open>wave\<close>, the output is one line per signal in input order, and the wave
  field of each signal's line, between the ": " after the label and the newline, is the
  concatenation in order, with no separator, of one glyph run per code unit of the wave:
  "P" gives a bar, four overlines and a bar (6 units), "0" gives "____", "1" four
  overlines, "." four spaces, "x" gives "xxxx", "=" gives "====", and every other code
  unit gives exactly "????".
\<close>

theorem wave_field_glyphs:
  assumes "\<forall>s\<in>set sigs. name s \<noteq> None \<and> wave s \<noteq> None"
  shows "\<exists>lines. length lines = length sigs \<and>
           generateAsciiArt sigs = Inr (concat lines) \<and>
           (\<forall>i<length sigs. \<forall>n w.
              name (sigs ! i) = Some n \<longrightarrow> wave (sigs ! i) = Some w \<longrightarrow>
              lines ! i =
                (if length n < 10 then n @ replicate (10 - length n) 0x20 else n)
                @ [0x3A, 0x20]
                @ concat (map (\<lambda>u. if u = 0x50 then [0x7C, 0x203E, 0x203E, 0x203E, 0x203E, 0x7C]
                                    else if u = 0x30 then [0x5F, 0x5F, 0x5F, 0x5F]
                                    else if u = 0x31 then [0x203E, 0x203E, 0x203E, 0x203E]
                                    else if u = 0x2E then [0x20, 0x20, 0x20, 0x20]
                                    else if u = 0x78 then [0x78, 0x78, 0x78, 0x78]
                                    else if u = 0x3D then [0x3D, 0x3D, 0x3D, 0x3D]
                                    else [0x3F, 0x3F, 0x3F, 0x3F]) w)
                @ [0x0A])"
  using render_lines [OF assms] by (simp only: glyph_unit)

text \<open>
  C2 at the signals "clk" with wave "P0" and "D" with wave "1.x=?": all six tokens and
  one unknown code unit, in two lines.
\<close>

theorem wave_field_glyphs_witness:
  "generateAsciiArt
     [\<lparr>name = Some [0x63, 0x6C, 0x6B], wave = Some [0x50, 0x30], data = None\<rparr>,
      \<lparr>name = Some [0x44], wave = Some [0x31, 0x2E, 0x78, 0x3D, 0x3F], data = None\<rparr>] =
     Inr ([0x63, 0x6C, 0x6B, 0x20, 0x20, 0x20, 0x20, 0x20, 0x20, 0x20, 0x3A, 0x20,
           0x7C, 0x203E, 0x203E, 0x203E, 0x203E, 0x7C, 0x5F, 0x5F, 0x5F, 0x5F, 0x0A] @
          [0x44, 0x20, 0x20, 0x20, 0x20, 0x20, 0x20, 0x20, 0x20, 0x20, 0x3A, 0x20,
           0x203E, 0x203E, 0x203E, 0x203E, 0x20, 0x20, 0x20, 0x20, 0x78, 0x78, 0x78, 0x78,
           0x3D, 0x3D, 0x3D, 0x3D, 0x3F, 0x3F, 0x3F, 0x3F, 0x0A])"
proof -
  let ?S = "[\<lparr>name = Some [0x63, 0x6C, 0x6B], wave = Some [0x50, 0x30], data = None\<rparr>,
             \<lparr>name = Some [0x44], wave = Some [0x31, 0x2E, 0x78, 0x3D, 0x3F], data = None\<rparr>]"
  have present: "\<forall>s\<in>set ?S. name s \<noteq> None \<and> wave s \<noteq> None"
    by simp
  from wave_field_glyphs [OF present]
  obtain lines where len: "length lines = length ?S"
    and out: "generateAsciiArt ?S = Inr (concat lines)"
    and each: "\<forall>i<length ?S. \<forall>n w.
              name (?S ! i) = Some n \<longrightarrow> wave (?S ! i) = Some w \<longrightarrow>
              lines ! i =
                (if length n < 10 then n @ replicate (10 - length n) 0x20 else n)
                @ [0x3A, 0x20]
                @ concat (map (\<lambda>u. if u = 0x50 then [0x7C, 0x203E, 0x203E, 0x203E, 0x203E, 0x7C]
                                    else if u = 0x30 then [0x5F, 0x5F, 0x5F, 0x5F]
                                    else if u = 0x31 then [0x203E, 0x203E, 0x203E, 0x203E]
                                    else if u = 0x2E then [0x20, 0x20, 0x20, 0x20]
                                    else if u = 0x78 then [0x78, 0x78, 0x78, 0x78]
                                    else if u = 0x3D then [0x3D, 0x3D, 0x3D, 0x3D]
                                    else [0x3F, 0x3F, 0x3F, 0x3F]) w)
                @ [0x0A]"
    by blast
  have l0: "lines ! 0 =
      [0x63, 0x6C, 0x6B, 0x20, 0x20, 0x20, 0x20, 0x20, 0x20, 0x20, 0x3A, 0x20,
       0x7C, 0x203E, 0x203E, 0x203E, 0x203E, 0x7C, 0x5F, 0x5F, 0x5F, 0x5F, 0x0A]"
    using each [rule_format, of 0 "[0x63, 0x6C, 0x6B]" "[0x50, 0x30]"]
    by (simp add: pad_units)
  have l1: "lines ! 1 =
      [0x44, 0x20, 0x20, 0x20, 0x20, 0x20, 0x20, 0x20, 0x20, 0x20, 0x3A, 0x20,
       0x203E, 0x203E, 0x203E, 0x203E, 0x20, 0x20, 0x20, 0x20, 0x78, 0x78, 0x78, 0x78,
       0x3D, 0x3D, 0x3D, 0x3D, 0x3F, 0x3F, 0x3F, 0x3F, 0x0A]"
    using each [rule_format, of 1 "[0x44]" "[0x31, 0x2E, 0x78, 0x3D, 0x3F]"]
    by (simp add: pad_units)
  have "concat lines = lines ! 0 @ lines ! 1"
    using len by (intro concat_two) simp
  with out show ?thesis
    unfolding l0 l1 by simp
qed

text \<open>
  C3 as stated fails: the signal named "clk" without a \<open>wave\<close> has a string \<open>name\<close>
  shorter than 10, but the renderer raises on it and there is no output line to hold a
  label field.
\<close>

theorem label_field_counterexample:
  "generateAsciiArt [\<lparr>name = Some [0x63, 0x6C, 0x6B], wave = None, data = None\<rparr>] =
     Inl TypeError"
  by (simp add: render_absent)

text \<open>
  C3, as the code has it. On every signal list in which each signal has a string \<open>name\<close>
  and a string \<open>wave\<close>, the output is one line per signal in input order; the label field
  of the line of a signal whose \<open>name\<close> is shorter than 10 is the name, left-aligned and
  padded with trailing spaces to exactly 10 units, followed by ": ", and the label field
  of the line of a signal whose \<open>name\<close> has length 10 or more is the name unmodified, not
  truncated, followed by ": ".
\<close>

theorem label_field:
  assumes "\<forall>s\<in>set sigs. name s \<noteq> None \<and> wave s \<noteq> None"
  shows "\<exists>lines. length lines = length sigs \<and>
           generateAsciiArt sigs = Inr (concat lines) \<and>
           (\<forall>i<length sigs. \<forall>n w.
              name (sigs ! i) = Some n \<longrightarrow> wave (sigs ! i) = Some w \<longrightarrow>
              (length n < 10 \<longrightarrow>
                 lines ! i = (n @ replicate (10 - length n) 0x20) @ [0x3A, 0x20]
                               @ concat (map glyph (split_units w)) @ [0x0A] \<and>
                 length (n @ replicate (10 - length n) (0x20 :: 16 word)) = 10) \<and>
              (10 \<le> length n \<longrightarrow>
                 lines ! i = n @ [0x3A, 0x20] @ concat (map glyph (split_units w)) @ [0x0A]))"
proof -
  from render_lines [OF assms]
  obtain lines where len: "length lines = length sigs"
    and out: "generateAsciiArt sigs = Inr (concat lines)"
    and each: "\<forall>i<length sigs. \<forall>n w.
              name (sigs ! i) = Some n \<longrightarrow> wave (sigs ! i) = Some w \<longrightarrow>
              lines ! i =
                (if length n < 10 then n @ replicate (10 - length n) 0x20 else n)
                @ [0x3A, 0x20] @ concat (map (\<lambda>u. glyph [u]) w) @ [0x0A]"
    by blast
  have "(length n < 10 \<longrightarrow>
           lines ! i = (n @ replicate (10 - length n) 0x20) @ [0x3A, 0x20]
                         @ concat (map glyph (split_units w)) @ [0x0A] \<and>
           length (n @ replicate (10 - length n) (0x20 :: 16 word)) = 10) \<and>
        (10 \<le> length n \<longrightarrow>
           lines ! i = n @ [0x3A, 0x20] @ concat (map glyph (split_units w)) @ [0x0A])"
    if "i < length sigs" "name (sigs ! i) = Some n" "wave (sigs ! i) = Some w" for i n w
    using each [rule_format, OF that] by (simp add: map_glyph_split)
  with len out show ?thesis
    by blast
qed

text \<open>
  C3 at the names "clk" (padded with seven spaces) and "Acknowledge" (11 units, kept),
  both with the empty wave, in one list.
\<close>

theorem label_field_witness:
  "generateAsciiArt
     [\<lparr>name = Some [0x63, 0x6C, 0x6B], wave = Some [], data = None\<rparr>,
      \<lparr>name = Some [0x41, 0x63, 0x6B, 0x6E, 0x6F, 0x77, 0x6C, 0x65, 0x64, 0x67, 0x65],
       wave = Some [], data = None\<rparr>] =
     Inr ([0x63, 0x6C, 0x6B, 0x20, 0x20, 0x20, 0x20, 0x20, 0x20, 0x20, 0x3A, 0x20, 0x0A] @
          [0x41, 0x63, 0x6B, 0x6E, 0x6F, 0x77, 0x6C, 0x65, 0x64, 0x67, 0x65, 0x3A, 0x20, 0x0A])"
proof -
  let ?S = "[\<lparr>name = Some [0x63, 0x6C, 0x6B], wave = Some [], data = None\<rparr>,
             \<lparr>name = Some [0x41, 0x63, 0x6B, 0x6E, 0x6F, 0x77, 0x6C, 0x65, 0x64, 0x67, 0x65],
              wave = Some [], data = None\<rparr>]"
  have present: "\<forall>s\<in>set ?S. name s \<noteq> None \<and> wave s \<noteq> None"
    by simp
  from label_field [OF present]
  obtain lines where len: "length lines = length ?S"
    and out: "generateAsciiArt ?S = Inr (concat lines)"
    and each: "\<forall>i<length ?S. \<forall>n w.
              name (?S ! i) = Some n \<longrightarrow> wave (?S ! i) = Some w \<longrightarrow>
              (length n < 10 \<longrightarrow>
                 lines ! i = (n @ replicate (10 - length n) 0x20) @ [0x3A, 0x20]
                               @ concat (map glyph (split_units w)) @ [0x0A] \<and>
                 length (n @ replicate (10 - length n) (0x20 :: 16 word)) = 10) \<and>
              (10 \<le> length n \<longrightarrow>
                 lines ! i = n @ [0x3A, 0x20] @ concat (map glyph (split_units w)) @ [0x0A])"
    by blast
  have l0: "lines ! 0 =
      [0x63, 0x6C, 0x6B, 0x20, 0x20, 0x20, 0x20, 0x20, 0x20, 0x20, 0x3A, 0x20, 0x0A]"
    using each [rule_format, of 0 "[0x63, 0x6C, 0x6B]" "[]"]
    by (simp add: split_units_def pad_units)
  have l1: "lines ! 1 =
      [0x41, 0x63, 0x6B, 0x6E, 0x6F, 0x77, 0x6C, 0x65, 0x64, 0x67, 0x65, 0x3A, 0x20, 0x0A]"
    using each [rule_format, of 1 "[0x41, 0x63, 0x6B, 0x6E, 0x6F, 0x77, 0x6C, 0x65, 0x64, 0x67, 0x65]" "[]"]
    by (simp add: split_units_def)
  have "concat lines = lines ! 0 @ lines ! 1"
    using len by (intro concat_two) simp
  with out show ?thesis
    unfolding l0 l1 by simp
qed

text \<open>
  C5 as stated fails: the signal with wave "P.=" and no \<open>name\<close> has a wave of recognized
  tokens only, but the renderer raises on it and there is no rendered wave field to
  measure.
\<close>

theorem wave_field_length_counterexample:
  "generateAsciiArt [\<lparr>name = None, wave = Some [0x50, 0x2E, 0x3D], data = None\<rparr>] =
     Inl TypeError"
  by (simp add: render_absent)

text \<open>
  C5, as the code has it. On every signal list in which each signal has a string \<open>name\<close>
  and a string \<open>wave\<close>, the output is one line per signal in input order, each line being
  the label, ": ", the wave field and a newline; and for every signal of the list whose
  \<open>wave\<close> consists of recognized tokens only ("P", "0", "1", ".", "x", "="), the length
  of the wave field of its line is the sum over the wave's code units of the token's run
  width: 6 for "P" and 4 for every other recognized token.
\<close>

theorem wave_field_length:
  assumes "\<forall>s\<in>set sigs. name s \<noteq> None \<and> wave s \<noteq> None"
  shows "\<exists>lines. length lines = length sigs \<and>
           generateAsciiArt sigs = Inr (concat lines) \<and>
           (\<forall>i<length sigs. \<forall>n w.
              name (sigs ! i) = Some n \<longrightarrow> wave (sigs ! i) = Some w \<longrightarrow>
              (\<exists>field.
                 lines ! i =
                   (if length n < 10 then n @ replicate (10 - length n) 0x20 else n)
                   @ [0x3A, 0x20] @ field @ [0x0A] \<and>
                 (set w \<subseteq> {0x50, 0x30, 0x31, 0x2E, 0x78, 0x3D} \<longrightarrow>
                    length field = (\<Sum>u\<leftarrow>w. if u = 0x50 then 6 else 4))))"
proof -
  from render_lines [OF assms]
  obtain lines where len: "length lines = length sigs"
    and out: "generateAsciiArt sigs = Inr (concat lines)"
    and each: "\<forall>i<length sigs. \<forall>n w.
              name (sigs ! i) = Some n \<longrightarrow> wave (sigs ! i) = Some w \<longrightarrow>
              lines ! i =
                (if length n < 10 then n @ replicate (10 - length n) 0x20 else n)
                @ [0x3A, 0x20] @ concat (map (\<lambda>u. glyph [u]) w) @ [0x0A]"
    by blast
  have width: "length (concat (map (\<lambda>u. glyph [u]) w)) = (\<Sum>u\<leftarrow>w. if u = 0x50 then 6 else 4)"
    if "set w \<subseteq> {0x50, 0x30, 0x31, 0x2E, 0x78, 0x3D}" for w
  proof -
    have widths: "map (\<lambda>u. length (glyph [u])) w = map (\<lambda>u. if u = 0x50 then 6 else 4) w"
      using that by (intro map_cong refl length_glyph_recognized) auto
    have "length (concat (map (\<lambda>u. glyph [u]) w)) = sum_list (map (\<lambda>u. length (glyph [u])) w)"
      by (simp add: length_concat_sum comp_def)
    also have "\<dots> = (\<Sum>u\<leftarrow>w. if u = 0x50 then 6 else 4)"
      by (simp only: widths)
    finally show ?thesis .
  qed
  have "\<exists>field.
          lines ! i =
            (if length n < 10 then n @ replicate (10 - length n) 0x20 else n)
            @ [0x3A, 0x20] @ field @ [0x0A] \<and>
          (set w \<subseteq> {0x50, 0x30, 0x31, 0x2E, 0x78, 0x3D} \<longrightarrow>
             length field = (\<Sum>u\<leftarrow>w. if u = 0x50 then 6 else 4))"
    if "i < length sigs" "name (sigs ! i) = Some n" "wave (sigs ! i) = Some w" for i n w
    using each [rule_format, OF that] width [of w] by blast
  with len out show ?thesis
    by blast
qed

text \<open>
  C5 at the signals "clk" with wave "P.=" (6 + 4 + 4 units) and "D" with wave "01x"
  (4 + 4 + 4 units), in one list.
\<close>

theorem wave_field_length_witness:
  "\<exists>f0 f1.
     generateAsciiArt
       [\<lparr>name = Some [0x63, 0x6C, 0x6B], wave = Some [0x50, 0x2E, 0x3D], data = None\<rparr>,
        \<lparr>name = Some [0x44], wave = Some [0x30, 0x31, 0x78], data = None\<rparr>] =
       Inr (([0x63, 0x6C, 0x6B, 0x20, 0x20, 0x20, 0x20, 0x20, 0x20, 0x20, 0x3A, 0x20]
               @ f0 @ [0x0A]) @
            ([0x44, 0x20, 0x20, 0x20, 0x20, 0x20, 0x20, 0x20, 0x20, 0x20, 0x3A, 0x20]
               @ f1 @ [0x0A])) \<and>
     length f0 = 14 \<and> length f1 = 12"
proof -
  let ?S = "[\<lparr>name = Some [0x63, 0x6C, 0x6B], wave = Some [0x50, 0x2E, 0x3D], data = None\<rparr>,
             \<lparr>name = Some [0x44], wave = Some [0x30, 0x31, 0x78], data = None\<rparr>]"
  have present: "\<forall>s\<in>set ?S. name s \<noteq> None \<and> wave s \<noteq> None"
    by simp
  from wave_field_length [OF present]
  obtain lines where len: "length lines = length ?S"
    and out: "generateAsciiArt ?S = Inr (concat lines)"
    and each: "\<forall>i<length ?S. \<forall>n w.
              name (?S ! i) = Some n \<longrightarrow> wave (?S ! i) = Some w \<longrightarrow>
              (\<exists>field.
                 lines ! i =
                   (if length n < 10 then n @ replicate (10 - length n) 0x20 else n)
                   @ [0x3A, 0x20] @ field @ [0x0A] \<and>
                 (set w \<subseteq> {0x50, 0x30, 0x31, 0x2E, 0x78, 0x3D} \<longrightarrow>
                    length field = (\<Sum>u\<leftarrow>w. if u = 0x50 then 6 else 4)))"
    by blast
  obtain f0 where l0: "lines ! 0 =
      [0x63, 0x6C, 0x6B, 0x20, 0x20, 0x20, 0x20, 0x20, 0x20, 0x20, 0x3A, 0x20] @ f0 @ [0x0A]"
    and w0: "length f0 = 14"
    using each [rule_format, of 0 "[0x63, 0x6C, 0x6B]" "[0x50, 0x2E, 0x3D]"]
    by (auto simp: pad_units)
  obtain f1 where l1: "lines ! 1 =
      [0x44, 0x20, 0x20, 0x20, 0x20, 0x20, 0x20, 0x20, 0x20, 0x20, 0x3A, 0x20] @ f1 @ [0x0A]"
    and w1: "length f1 = 12"
    using each [rule_format, of 1 "[0x44]" "[0x30, 0x31, 0x78]"]
    by (auto simp: pad_units)
  have "concat lines = lines ! 0 @ lines ! 1"
    using len by (intro concat_two) simp
  with out have "generateAsciiArt ?S = Inr (lines ! 0 @ lines ! 1)"
    by simp
  then show ?thesis
    unfolding l0 l1 using w0 w1 by blast
qed

lemma forOf_fields:
  "map name xs = map name ys \<Longrightarrow> map wave xs = map wave ys \<Longrightarrow> forOf acc xs = forOf acc ys"
proof (induction xs arbitrary: ys acc)
  case Nil
  then show ?case by simp
next
  case (Cons x xs)
  then obtain y ys' where ys: "ys = y # ys'" by (cases ys) auto
  with Cons.prems have hd: "name x = name y" "wave x = wave y"
    and tl: "map name xs = map name ys'" "map wave xs = map wave ys'"
    by simp_all
  have "forOf acc' xs = forOf acc' ys'" for acc'
    using tl by (rule Cons.IH)
  then show ?case
    unfolding ys by (simp add: hd split: sum.splits option.splits)
qed

text \<open>
  C6. The output does not depend on the optional \<open>data\<close> field: two signal lists that
  agree pointwise on \<open>name\<close> and \<open>wave\<close> and differ arbitrarily in \<open>data\<close> give the
  same result, be it the rendered text or the exception, so no error comes from \<open>data\<close>
  being there.
\<close>

theorem data_ignored:
  "map name xs = map name ys \<Longrightarrow> map wave xs = map wave ys \<Longrightarrow>
   generateAsciiArt xs = generateAsciiArt ys"
  unfolding generateAsciiArt_def by (rule forOf_fields)

text \<open>C6 at the signal "D" with wave "=", once with two data labels and once with none.\<close>

theorem data_ignored_witness:
  "generateAsciiArt
     [\<lparr>name = Some [0x44], wave = Some [0x3D], data = Some [[0x68, 0x69], [0x6C, 0x6F]]\<rparr>] =
   generateAsciiArt [\<lparr>name = Some [0x44], wave = Some [0x3D], data = None\<rparr>]"
  using data_ignored
    [of "[\<lparr>name = Some [0x44], wave = Some [0x3D], data = Some [[0x68, 0x69], [0x6C, 0x6F]]\<rparr>]"
        "[\<lparr>name = Some [0x44], wave = Some [0x3D], data = None\<rparr>]"]
  by simp

text \<open>
  C7. Rendering is deterministic and order-preserving. The renderer reads its parameter
  and its own constant table and nothing else, so it is a function of the signal list:
  the same list gives the same result. Every signal has a line of its own, the result of
  rendering that signal alone; the output is these lines in input order; and for every
  permutation \<open>p\<close> of the positions, rendering the permuted list gives the same lines
  permuted by \<open>p\<close>. When the renderer raises, it raises the same exception on every
  permutation of the list.
\<close>

theorem render_order_preserving:
  assumes perm: "mset p = mset [0..<length sigs]"
  shows "(\<forall>e. generateAsciiArt sigs = Inl e \<longrightarrow>
             generateAsciiArt (map ((!) sigs) p) = Inl e) \<and>
         (\<forall>out. generateAsciiArt sigs = Inr out \<longrightarrow>
            (\<exists>lines. length lines = length sigs \<and>
                (\<forall>i<length sigs. generateAsciiArt [sigs ! i] = Inr (lines ! i)) \<and>
                out = concat lines \<and>
                generateAsciiArt (map ((!) sigs) p) = Inr (concat (map ((!) lines) p))))"
proof -
  have sp: "set p = set [0..<length sigs]"
    using perm by (rule mset_eq_setD)
  then have idx: "set p = {0..<length sigs}" by simp
  have same_set: "set (map ((!) sigs) p) = set sigs"
  proof -
    have "set (map ((!) sigs) p) = (!) sigs ` set [0..<length sigs]"
      by (simp only: set_map sp)
    also have "\<dots> = set (map ((!) sigs) [0..<length sigs])"
      by (simp only: set_map)
    also have "\<dots> = set sigs"
      by (simp only: map_nth)
    finally show ?thesis .
  qed
  let ?ok = "\<lambda>xs. \<forall>s\<in>set xs. name s \<noteq> None \<and> wave s \<noteq> None"
  have ok_perm: "?ok (map ((!) sigs) p) \<longleftrightarrow> ?ok sigs"
    by (simp only: same_set)
  have err: "generateAsciiArt (map ((!) sigs) p) = Inl e" if "generateAsciiArt sigs = Inl e" for e
  proof -
    from that have "\<not> ?ok sigs" "e = TypeError"
      by (simp_all add: render_cases [of sigs] split: if_splits)
    then show ?thesis
      using ok_perm by (simp add: render_cases [of "map ((!) sigs) p"])
  qed
  have ok: "\<exists>lines. length lines = length sigs \<and>
                (\<forall>i<length sigs. generateAsciiArt [sigs ! i] = Inr (lines ! i)) \<and>
                out = concat lines \<and>
                generateAsciiArt (map ((!) sigs) p) = Inr (concat (map ((!) lines) p))"
    if "generateAsciiArt sigs = Inr out" for out
  proof -
    define line where "line s = projr (generateAsciiArt [s])" for s
    from that have all: "?ok sigs"
      by (simp add: render_cases [of sigs] split: if_splits)
    have single: "generateAsciiArt [s] = Inr (line s)" if "s \<in> set sigs" for s
    proof -
      from that all have "\<exists>l. generateAsciiArt [s] = Inr l"
        by (simp add: render_single_Inr_iff)
      then show ?thesis by (auto simp: line_def)
    qed
    let ?lines = "map line sigs"
    have 1: "length ?lines = length sigs" by simp
    have 2: "\<forall>i<length sigs. generateAsciiArt [sigs ! i] = Inr (?lines ! i)"
      by (simp add: single)
    have "generateAsciiArt sigs = Inr (concat ?lines)"
      by (rule render_concat) (simp add: single)
    with that have 3: "out = concat ?lines" by simp
    have "\<forall>s\<in>set (map ((!) sigs) p). generateAsciiArt [s] = Inr (line s)"
      unfolding same_set by (simp add: single)
    then have "generateAsciiArt (map ((!) sigs) p) = Inr (concat (map line (map ((!) sigs) p)))"
      by (rule render_concat)
    also have "map line (map ((!) sigs) p) = map ((!) ?lines) p"
      using idx by simp
    finally have 4: "generateAsciiArt (map ((!) sigs) p) = Inr (concat (map ((!) ?lines) p))" .
    from 1 2 3 4 show ?thesis by blast
  qed
  from err ok show ?thesis by blast
qed

text \<open>
  C7 at the two signals "clk" with wave "P." and "D" with wave "01x", swapped.
\<close>

theorem render_order_preserving_witness:
  "mset [1, 0] =
     mset [0..<length [\<lparr>name = Some [0x63, 0x6C, 0x6B], wave = Some [0x50, 0x2E], data = None\<rparr>,
                       \<lparr>name = Some [0x44], wave = Some [0x30, 0x31, 0x78], data = None\<rparr>]] \<and>
   generateAsciiArt
     [\<lparr>name = Some [0x63, 0x6C, 0x6B], wave = Some [0x50, 0x2E], data = None\<rparr>,
      \<lparr>name = Some [0x44], wave = Some [0x30, 0x31, 0x78], data = None\<rparr>] =
     Inr ([0x63, 0x6C, 0x6B, 0x20, 0x20, 0x20, 0x20, 0x20, 0x20, 0x20, 0x3A, 0x20,
           0x7C, 0x203E, 0x203E, 0x203E, 0x203E, 0x7C, 0x20, 0x20, 0x20, 0x20, 0x0A] @
          [0x44, 0x20, 0x20, 0x20, 0x20, 0x20, 0x20, 0x20, 0x20, 0x20, 0x3A, 0x20,
           0x5F, 0x5F, 0x5F, 0x5F, 0x203E, 0x203E, 0x203E, 0x203E,
           0x78, 0x78, 0x78, 0x78, 0x0A]) \<and>
   generateAsciiArt
     (map ((!) [\<lparr>name = Some [0x63, 0x6C, 0x6B], wave = Some [0x50, 0x2E], data = None\<rparr>,
                \<lparr>name = Some [0x44], wave = Some [0x30, 0x31, 0x78], data = None\<rparr>])
          [1, 0]) =
     Inr ([0x44, 0x20, 0x20, 0x20, 0x20, 0x20, 0x20, 0x20, 0x20, 0x20, 0x3A, 0x20,
           0x5F, 0x5F, 0x5F, 0x5F, 0x203E, 0x203E, 0x203E, 0x203E,
           0x78, 0x78, 0x78, 0x78, 0x0A] @
          [0x63, 0x6C, 0x6B, 0x20, 0x20, 0x20, 0x20, 0x20, 0x20, 0x20, 0x3A, 0x20,
           0x7C, 0x203E, 0x203E, 0x203E, 0x203E, 0x7C, 0x20, 0x20, 0x20, 0x20, 0x0A])"
proof -
  let ?clk = "\<lparr>name = Some [0x63, 0x6C, 0x6B], wave = Some [0x50, 0x2E], data = None\<rparr>"
  let ?D = "\<lparr>name = Some [0x44], wave = Some [0x30, 0x31, 0x78], data = None\<rparr>"
  let ?S = "[?clk, ?D]"
  let ?L0 = "[0x63, 0x6C, 0x6B, 0x20, 0x20, 0x20, 0x20, 0x20, 0x20, 0x20, 0x3A, 0x20,
              0x7C, 0x203E, 0x203E, 0x203E, 0x203E, 0x7C, 0x20, 0x20, 0x20, 0x20, 0x0A] :: jsstring"
  let ?L1 = "[0x44, 0x20, 0x20, 0x20, 0x20, 0x20, 0x20, 0x20, 0x20, 0x20, 0x3A, 0x20,
              0x5F, 0x5F, 0x5F, 0x5F, 0x203E, 0x203E, 0x203E, 0x203E,
              0x78, 0x78, 0x78, 0x78, 0x0A] :: jsstring"
  have perm: "mset [1, 0] = mset [0..<length ?S]"
    by (simp add: upt_rec)
  have clk: "generateAsciiArt [?clk] = Inr ?L0"
    by (simp add: render_single glyph_unit pad_units)
  have D: "generateAsciiArt [?D] = Inr ?L1"
    by (simp add: render_single glyph_unit pad_units)
  have both: "generateAsciiArt ?S = Inr (?L0 @ ?L1)"
    by (simp only: render_Cons [of ?clk "[?D]"] clk D sum.case)
  have "\<forall>out. generateAsciiArt ?S = Inr out \<longrightarrow>
          (\<exists>lines. length lines = length ?S \<and>
             (\<forall>i<length ?S. generateAsciiArt [?S ! i] = Inr (lines ! i)) \<and>
             out = concat lines \<and>
             generateAsciiArt (map ((!) ?S) [1, 0]) = Inr (concat (map ((!) lines) [1, 0])))"
    using render_order_preserving [OF perm] by (rule conjunct2)
  with both obtain lines
    where each: "\<forall>i<length ?S. generateAsciiArt [?S ! i] = Inr (lines ! i)"
      and swapped: "generateAsciiArt (map ((!) ?S) [1, 0]) = Inr (concat (map ((!) lines) [1, 0]))"
    by blast
  have "generateAsciiArt [?S ! 0] = Inr (lines ! 0)"
    and "generateAsciiArt [?S ! 1] = Inr (lines ! 1)"
    using each [rule_format, of 0] each [rule_format, of 1] by simp_all
  then have "lines ! 0 = ?L0" and "lines ! 1 = ?L1"
    by (simp_all add: clk D)
  with swapped have "generateAsciiArt (map ((!) ?S) [1, 0]) = Inr (?L1 @ ?L0)"
    by simp
  with perm both show ?thesis
    by (intro conjI)
qed

end
